theory Spec2Isabelle
  imports Main "HOL-Library.AList"
begin

section \<open>Shared types (the shared module of server and client)\<close>

text \<open>
  JavaScript numbers are carried as an uninterpreted type \<open>'n\<close>: the server only stores and
  forwards them. The field \<open>id\<close> of a position is written \<open>id'\<close>, since \<open>id\<close> is the
  identity function of HOL. Optional fields (\<open>lastPaymentDate?\<close>, \<open>phoneNumber?\<close>,
  \<open>name?\<close>) are options.
\<close>

record 'n Position =
  lat :: 'n
  lng :: 'n
  id' :: string

datatype Status = active | defaulted | paid | legal

record 'n DebtorInfo =
  position :: "'n Position"
  loanAmount :: 'n
  outstandingBalance :: 'n
  missedPayments :: 'n
  lastPaymentDate :: "string option"
  dueDate :: string
  phoneNumber :: "string option"
  name :: "string option"
  interestRate :: 'n
  status :: Status

datatype 'n OutgoingMessage =
    add_debtor "'n DebtorInfo"
  | update_debtor "'n DebtorInfo"
  | remove_debtor string

text \<open>
  What goes over the wire is \<open>JSON.stringify\<close> of either an \<open>OutgoingMessage\<close> or of the
  untyped object \<open>{type: "error", message}\<close> of \<open>onConnect\<close>; the model keeps the value
  that is serialised.
\<close>

datatype 'n Json =
    Outgoing "'n OutgoingMessage"
  | error_object string

fun type_tag :: "'n Json \<Rightarrow> string" where
  "type_tag (Outgoing (add_debtor d)) = ''add-debtor''"
| "type_tag (Outgoing (update_debtor d)) = ''update-debtor''"
| "type_tag (Outgoing (remove_debtor i)) = ''remove-debtor''"
| "type_tag (error_object m) = ''error''"


section \<open>The transport (partyserver): connections, send, broadcast\<close>

record ConnectionState =
  userId :: string
  connectionId :: string

text \<open>
  A connection object of the transport, addressed by its id (\<open>conn.id\<close>, the key of the
  store \<open>connections\<close> below): the state set with \<open>setState\<close>, the messages delivered to
  it so far (oldest first), whether it is open, and whether its socket has died so that
  a \<open>send\<close> on it throws.
\<close>

record 'n Connection =
  state :: "ConnectionState option"
  sent :: "'n Json list"
  isOpen :: bool
  sendFails :: bool

record Cf =
  latitude :: "string option"
  longitude :: "string option"

text \<open>
  The request of a \<open>ConnectionContext\<close>: the query parameters of its URL in order
  (\<open>searchParams.get\<close> returns the first value of a name, or null) and the platform
  metadata \<open>cf\<close>, which may be undefined.
\<close>

record Request =
  searchParams :: "(string \<times> string) list"
  cf :: "Cf option"

record ConnectionContext =
  request :: Request

text \<open>
  The values that the \<open>Math.random()\<close> and \<open>Date.now()\<close> expressions of \<open>onConnect\<close>
  take in one call, one field per expression: the environment chooses them.
\<close>

record 'n Random =
  rnd_loanAmount :: 'n
  rnd_outstandingBalance :: 'n
  rnd_missedPayments :: 'n
  rnd_dueDate :: string
  rnd_interestRate :: 'n
  rnd_above_0_7 :: bool
  rnd_phoneDigits :: string

text \<open>
  The server object: the two maps of class \<open>Globe\<close> (JavaScript maps iterate in insertion
  order, so they are association lists with one entry per key) and the connections the
  transport has accepted, in the order of acceptance.
\<close>

record 'n Globe =
  debtors :: "(string \<times> 'n DebtorInfo) list"
  userConnections :: "(string \<times> string set) list"
  connections :: "(string \<times> 'n Connection) list"

datatype outcome = Returned | Threw

text \<open>
  Modelled from the spec: \<open>conn.send(msg)\<close> of the transport (partyserver, not part of
  the repository), which fails with \<open>SendError\<close>: it delivers the message, or throws when
  the connection's socket has died or was closed. The model of a dangling handle throws as
  well.
\<close>

definition send :: "string \<Rightarrow> 'n Json \<Rightarrow> 'n Globe \<Rightarrow> outcome \<times> 'n Globe" where
  "send c m g =
    (case map_of (connections g) c of
       None \<Rightarrow> (Threw, g)
     | Some x \<Rightarrow>
         if sendFails x \<or> \<not> isOpen x then (Threw, g)
         else (Returned,
               g\<lparr>connections := AList.map_entry c (\<lambda>x. x\<lparr>sent := sent x @ [m]\<rparr>) (connections g)\<rparr>))"

text \<open>Sends in sequence; an exception leaves the loop, as in JavaScript.\<close>

fun sendAll :: "(string \<times> 'n Json) list \<Rightarrow> 'n Globe \<Rightarrow> outcome \<times> 'n Globe" where
  "sendAll [] g = (Returned, g)"
| "sendAll ((c, m) # rest) g =
    (case send c m g of
       (Threw, g') \<Rightarrow> (Threw, g')
     | (Returned, g') \<Rightarrow> sendAll rest g')"

text \<open>
  Modelled from the spec: \<open>broadcast(msg, without)\<close> of the transport (class \<open>Server\<close> of
  partyserver, not part of the repository): the message is sent to every live connection
  except those whose id is listed in \<open>without\<close>. A send that fails is isolated to its
  connection, which the transport closes (the failure becomes a close of that connection
  only); it does not end the delivery to the remaining connections, and the broadcast
  returns.
\<close>

definition broadcast :: "'n Json \<Rightarrow> string list \<Rightarrow> 'n Globe \<Rightarrow> outcome \<times> 'n Globe" where
  "broadcast msg without g =
    (Returned,
     g\<lparr>connections :=
         map (\<lambda>(c, x).
                if isOpen x \<and> c \<notin> set without
                then (if sendFails x then (c, x\<lparr>isOpen := False\<rparr>)
                      else (c, x\<lparr>sent := sent x @ [msg]\<rparr>))
                else (c, x))
           (connections g)\<rparr>)"

text \<open>
  Modelled from the spec: \<open>conn.setState(state)\<close> and \<open>conn.close()\<close> of the transport
  store the state on the connection and end its being live.
\<close>

definition setState :: "string \<Rightarrow> ConnectionState \<Rightarrow> 'n Globe \<Rightarrow> 'n Globe" where
  "setState c st g =
    g\<lparr>connections := AList.map_entry c (\<lambda>x. x\<lparr>state := Some st\<rparr>) (connections g)\<rparr>"

definition close :: "string \<Rightarrow> 'n Globe \<Rightarrow> 'n Globe" where
  "close c g =
    g\<lparr>connections := AList.map_entry c (\<lambda>x. x\<lparr>isOpen := False\<rparr>) (connections g)\<rparr>"


section \<open>The server (server/index.ts)\<close>

text \<open>A value of type \<open>string | null | undefined\<close> is truthy when it is a non-empty string.\<close>

fun truthy :: "string option \<Rightarrow> bool" where
  "truthy None = False"
| "truthy (Some s) = (s \<noteq> [])"

text \<open>
  Lines 20 to 38 of \<open>onConnect\<close>: the coordinates come from the query parameters when
  both are there, and from the platform's IP-based location otherwise.
\<close>

definition coordinates :: "ConnectionContext \<Rightarrow> string option \<times> string option" where
  "coordinates ctx =
    (let queryLat = map_of (searchParams (request ctx)) ''lat'';
         queryLng = map_of (searchParams (request ctx)) ''lng''
     in if truthy queryLat \<and> truthy queryLng then (queryLat, queryLng)
        else (case cf (request ctx) of
                None \<Rightarrow> (None, None)
              | Some m \<Rightarrow> (latitude m, longitude m)))"

text \<open>Line 23: \<open>url.searchParams.get("userId") || conn.id\<close>.\<close>

definition userId_of :: "string \<Rightarrow> ConnectionContext \<Rightarrow> string" where
  "userId_of conn ctx =
    (case map_of (searchParams (request ctx)) ''userId'' of
       None \<Rightarrow> conn
     | Some u \<Rightarrow> if u \<noteq> [] then u else conn)"

text \<open>Lines 67 to 83: the record of a user seen for the first time.\<close>

definition newDebtorInfo ::
    "(string \<Rightarrow> 'n) \<Rightarrow> 'n Random \<Rightarrow> string \<Rightarrow> string \<Rightarrow> string \<Rightarrow> 'n DebtorInfo" where
  "newDebtorInfo parseFloat rnd uid la lo =
    \<lparr>position = \<lparr>lat = parseFloat la, lng = parseFloat lo, id' = uid\<rparr>,
     loanAmount = rnd_loanAmount rnd,
     outstandingBalance = rnd_outstandingBalance rnd,
     missedPayments = rnd_missedPayments rnd,
     lastPaymentDate = None,
     dueDate = rnd_dueDate rnd,
     phoneNumber = Some (''+855 '' @ rnd_phoneDigits rnd),
     name = Some (''Debtor '' @ take 6 uid),
     interestRate = rnd_interestRate rnd,
     status = (if rnd_above_0_7 rnd then defaulted else active)\<rparr>"

text \<open>
  \<open>onConnect(conn, ctx)\<close>; \<open>conn\<close> is the id of the connection, which the transport has
  accepted before the call. \<open>parseFloat\<close> is a parameter.
\<close>

definition onConnect ::
    "(string \<Rightarrow> 'n) \<Rightarrow> 'n Random \<Rightarrow> string \<Rightarrow> ConnectionContext \<Rightarrow> 'n Globe
      \<Rightarrow> outcome \<times> 'n Globe" where
  "onConnect parseFloat rnd conn ctx g =
    (let uid = userId_of conn ctx;
         reject =
           (case send conn (error_object ''GPS position required to use this application'') g of
              (Threw, g') \<Rightarrow> (Threw, g')
            | (Returned, g') \<Rightarrow> (Returned, close conn g'))
     in case coordinates ctx of
          (Some la, Some lo) \<Rightarrow>
            if la = [] \<or> lo = [] then reject
            else
              let g1 = setState conn \<lparr>userId = uid, connectionId = conn\<rparr> g;
                  g2 = (if map_of (userConnections g1) uid = None
                        then g1\<lparr>userConnections := AList.update uid {} (userConnections g1)\<rparr>
                        else g1);
                  g3 = g2\<lparr>userConnections :=
                          AList.map_entry uid (insert conn) (userConnections g2)\<rparr>
              in (case map_of (debtors g3) uid of
                    None \<Rightarrow>
                      let debtorInfo = newDebtorInfo parseFloat rnd uid la lo;
                          g4 = g3\<lparr>debtors := AList.update uid debtorInfo (debtors g3)\<rparr>
                      in broadcast (Outgoing (add_debtor debtorInfo)) [] g4
                  | Some old \<Rightarrow>
                      let debtorInfo =
                            old\<lparr>position := (position old)\<lparr>lat := parseFloat la,
                                                               lng := parseFloat lo\<rparr>\<rparr>;
                          g4 = g3\<lparr>debtors := AList.update uid debtorInfo (debtors g3)\<rparr>
                      in sendAll
                           ((conn, Outgoing (add_debtor debtorInfo)) #
                            map (\<lambda>(otherUserId, otherDebtor).
                                    (conn, Outgoing (add_debtor otherDebtor)))
                              (filter (\<lambda>(otherUserId, otherDebtor). otherUserId \<noteq> uid)
                                 (debtors g4)))
                           g4)
        | _ \<Rightarrow> reject)"

text \<open>\<open>handleDisconnect(connection)\<close>, called by \<open>onClose\<close> and by \<open>onError\<close>.\<close>

definition handleDisconnect :: "'n Connection \<Rightarrow> 'n Globe \<Rightarrow> outcome \<times> 'n Globe" where
  "handleDisconnect connection g =
    (case state connection of
       None \<Rightarrow> (Returned, g)
     | Some st \<Rightarrow>
         (case map_of (userConnections g) (userId st) of
            None \<Rightarrow> (Returned, g)
          | Some userConns \<Rightarrow>
              let g1 = g\<lparr>userConnections :=
                          AList.map_entry (userId st) (\<lambda>s. s - {connectionId st})
                            (userConnections g)\<rparr>
              in if userConns - {connectionId st} = {} then
                   broadcast (Outgoing (remove_debtor (userId st))) [connectionId st]
                     (g1\<lparr>userConnections := AList.delete (userId st) (userConnections g1),
                         debtors := AList.delete (userId st) (debtors g1)\<rparr>)
                 else (Returned, g1)))"

definition onClose :: "'n Connection \<Rightarrow> 'n Globe \<Rightarrow> outcome \<times> 'n Globe" where
  "onClose connection g = handleDisconnect connection g"

definition onError :: "'n Connection \<Rightarrow> 'n Globe \<Rightarrow> outcome \<times> 'n Globe" where
  "onError connection g = handleDisconnect connection g"


section \<open>Events\<close>

text \<open>
  The transport accepts a connection (open, without state, nothing delivered) and then
  calls \<open>onConnect\<close>; it reports the close or the error of a connection it knows by calling
  \<open>onClose\<close> or \<open>onError\<close> with the connection object. \<open>Drop\<close> is the socket of a
  connection dying without a close having been reported yet.
\<close>

datatype 'n event =
    Connect string ConnectionContext "'n Random"
  | Close string
  | Error string
  | Drop string

definition accept :: "string \<Rightarrow> 'n Globe \<Rightarrow> 'n Globe" where
  "accept c g =
    g\<lparr>connections :=
        AList.update c \<lparr>state = None, sent = [], isOpen = True, sendFails = False\<rparr>
          (connections g)\<rparr>"

fun step :: "(string \<Rightarrow> 'n) \<Rightarrow> 'n event \<Rightarrow> 'n Globe \<Rightarrow> outcome \<times> 'n Globe" where
  "step parseFloat (Connect c ctx rnd) g = onConnect parseFloat rnd c ctx (accept c g)"
| "step parseFloat (Close c) g =
    (case map_of (connections g) c of
       None \<Rightarrow> (Returned, g)
     | Some x \<Rightarrow> onClose x (close c g))"
| "step parseFloat (Error c) g =
    (case map_of (connections g) c of
       None \<Rightarrow> (Returned, g)
     | Some x \<Rightarrow> onError x (close c g))"
| "step parseFloat (Drop c) g =
    (Returned,
     g\<lparr>connections := AList.map_entry c (\<lambda>x. x\<lparr>sendFails := True\<rparr>) (connections g)\<rparr>)"

fun run :: "(string \<Rightarrow> 'n) \<Rightarrow> 'n event list \<Rightarrow> 'n Globe \<Rightarrow> 'n Globe" where
  "run parseFloat [] g = g"
| "run parseFloat (e # es) g = run parseFloat es (snd (step parseFloat e g))"

definition initial :: "'n Globe" where
  "initial = \<lparr>debtors = [], userConnections = [], connections = []\<rparr>"

text \<open>The identities with at least one registered connection.\<close>

definition registered :: "'n Globe \<Rightarrow> string set" where
  "registered g = {u. \<exists>s. map_of (userConnections g) u = Some s \<and> s \<noteq> {}}"

definition consistent :: "'n Globe \<Rightarrow> bool" where
  "consistent g = (dom (map_of (debtors g)) = registered g)"


text \<open>
  The test of line 40 on the coordinates of a request: the pair of strings that
  \<open>parseFloat\<close> is applied to, or \<open>None\<close> when the connection is turned away.
\<close>

definition resolved :: "ConnectionContext \<Rightarrow> (string \<times> string) option" where
  "resolved ctx =
    (case coordinates ctx of
       (Some la, Some lo) \<Rightarrow> if la = [] \<or> lo = [] then None else Some (la, lo)
     | _ \<Rightarrow> None)"

text \<open>
  The record that \<open>onConnect\<close> stores for a user, given the record the user had before:
  a new one (lines 67 to 83), or the prior one with \<open>lat\<close> and \<open>lng\<close> assigned
  (lines 96 and 97).
\<close>

definition joined ::
    "(string \<Rightarrow> 'n) \<Rightarrow> 'n Random \<Rightarrow> string \<Rightarrow> string \<Rightarrow> string \<Rightarrow> 'n DebtorInfo option
      \<Rightarrow> 'n DebtorInfo" where
  "joined parseFloat rnd uid la lo prior =
    (case prior of
       None \<Rightarrow> newDebtorInfo parseFloat rnd uid la lo
     | Some old \<Rightarrow>
         old\<lparr>position := (position old)\<lparr>lat := parseFloat la, lng := parseFloat lo\<rparr>\<rparr>)"


section \<open>Predicates and sample values for the properties\<close>

text \<open>Every record carries its key as the id of its position, and the key is not empty.\<close>

definition ids_ok :: "'n Globe \<Rightarrow> bool" where
  "ids_ok g = list_all (\<lambda>(k, d). id' (position d) = k \<and> k \<noteq> []) (debtors g)"

text \<open>
  Connections have distinct ids, and no open connection has a dead socket: every send of
  a broadcast succeeds.
\<close>

definition healthy :: "'n Globe \<Rightarrow> bool" where
  "healthy g =
    (distinct (map fst (connections g)) \<and>
     list_all (\<lambda>(c, x). \<not> (isOpen x \<and> sendFails x)) (connections g))"

text \<open>What a successful broadcast does to the connections.\<close>

definition deliver ::
    "'n Json \<Rightarrow> string list \<Rightarrow> (string \<times> 'n Connection) list \<Rightarrow> (string \<times> 'n Connection) list" where
  "deliver m without cs =
    map (\<lambda>(c, x). if isOpen x \<and> c \<notin> set without then (c, x\<lparr>sent := sent x @ [m]\<rparr>) else (c, x)) cs"

text \<open>The messages a connection has been sent, as pairs of type tag and subject.\<close>

fun subject :: "'n Json \<Rightarrow> string" where
  "subject (Outgoing (add_debtor d)) = id' (position d)"
| "subject (Outgoing (update_debtor d)) = id' (position d)"
| "subject (Outgoing (remove_debtor i)) = i"
| "subject (error_object m) = []"

definition received :: "'n Globe \<Rightarrow> string \<Rightarrow> (string \<times> string) list" where
  "received g c =
    (case map_of (connections g) c of
       None \<Rightarrow> []
     | Some x \<Rightarrow> map (\<lambda>m. (type_tag m, subject m)) (sent x))"

text \<open>
  Sample values: a request with \<open>lat\<close>, \<open>lng\<close> and \<open>userId\<close> in its query, one draw of
  the random values with numbers written as their decimal text (so that \<open>parseFloat\<close> can
  be taken to be the identity), and the server after user \<open>u1\<close> has connected as \<open>A\<close>.
\<close>

definition query :: "string \<Rightarrow> string \<Rightarrow> string \<Rightarrow> ConnectionContext" where
  "query la lo u =
    \<lparr>request = \<lparr>searchParams = [(''lat'', la), (''lng'', lo), (''userId'', u)], cf = None\<rparr>\<rparr>"

definition sample :: "string Random" where
  "sample =
    \<lparr>rnd_loanAmount = ''1500'', rnd_outstandingBalance = ''700'', rnd_missedPayments = ''2'',
     rnd_dueDate = ''2025-07-01T00:00:00.000Z'', rnd_interestRate = ''7.5'',
     rnd_above_0_7 = False, rnd_phoneDigits = ''12345678''\<rparr>"

definition one_user :: "string Globe" where
  "one_user = snd (step (\<lambda>s. s) (Connect ''A'' (query ''1'' ''1'' ''u1'') sample) initial)"


text \<open>
  Lines 57 to 60: the connection is added to the set of its user, which is created when
  the user has none.
\<close>

definition registerConnection :: "string \<Rightarrow> string \<Rightarrow> (string \<times> string set) list \<Rightarrow> (string \<times> string set) list" where
  "registerConnection uid c ucs =
    AList.map_entry uid (insert c)
      (if map_of ucs uid = None then AList.update uid {} ucs else ucs)"

text \<open>
  A connection that was turned away: no state, the error message as the only message
  delivered, closed.
\<close>

definition rejected :: "'n Connection" where
  "rejected =
    \<lparr>state = None, sent = [error_object ''GPS position required to use this application''],
     isOpen = False, sendFails = False\<rparr>"

text \<open>
  More sample values: a request without query parameters whose platform metadata has a
  location, a request with no coordinates anywhere, and the server after user \<open>u1\<close> has
  connected as \<open>A\<close> and as \<open>B\<close> and user \<open>u2\<close> as \<open>C\<close>.
\<close>

definition cf_only :: "string \<Rightarrow> string \<Rightarrow> ConnectionContext" where
  "cf_only la lo =
    \<lparr>request = \<lparr>searchParams = [], cf = Some \<lparr>latitude = Some la, longitude = Some lo\<rparr>\<rparr>\<rparr>"

definition no_position :: ConnectionContext where
  "no_position = \<lparr>request = \<lparr>searchParams = [(''userId'', ''u1'')], cf = None\<rparr>\<rparr>"

definition two_tabs :: "string Globe" where
  "two_tabs =
    run (\<lambda>s. s)
      [Connect ''A'' (query ''1'' ''1'' ''u1'') sample,
       Connect ''B'' (query ''3'' ''3'' ''u1'') sample,
       Connect ''C'' (query ''2'' ''2'' ''u2'') sample] initial"


text \<open>The connection object of a closed connection \<open>c\<close> of user \<open>u\<close>.\<close>

definition closed_connection :: "string \<Rightarrow> string \<Rightarrow> 'n Connection" where
  "closed_connection u c =
    \<lparr>state = Some \<lparr>userId = u, connectionId = c\<rparr>, sent = [], isOpen = False,
     sendFails = False\<rparr>"


text \<open>
  All messages delivered so far, and their type tags.
\<close>

definition emitted :: "'n Globe \<Rightarrow> 'n Json list" where
  "emitted g = concat (map (\<lambda>(c, x). sent x) (connections g))"

definition tags :: "'n Globe \<Rightarrow> string set" where
  "tags g = type_tag ` set (emitted g)"

definition sent_in :: "(string \<times> 'n Connection) list \<Rightarrow> 'n Json set" where
  "sent_in cs = set (concat (map (\<lambda>(c, x). sent x) cs))"






definition live_A :: "string Connection" where
  "live_A =
    \<lparr>state = Some \<lparr>userId = ''u1'', connectionId = ''A''\<rparr>,
     sent = [Outgoing (add_debtor (newDebtorInfo (\<lambda>s. s) sample ''u1'' ''1'' ''1''))],
     isOpen = True, sendFails = False\<rparr>"


section \<open>The earlier server (the unnamed source file with \<open>onCloseOrError\<close>)\<close>

















section \<open>The transport touches neither map\<close>

lemma send_debtors: "debtors (snd (send c m g)) = debtors g"
  by (simp add: send_def split: option.splits)

lemma send_userConnections: "userConnections (snd (send c m g)) = userConnections g"
  by (simp add: send_def split: option.splits)

lemma sendAll_debtors: "debtors (snd (sendAll ms g)) = debtors g"
proof (induction ms arbitrary: g)
  case Nil
  show ?case by simp
next
  case (Cons a ms)
  obtain c m where a: "a = (c, m)" by (cases a)
  obtain r g' where s: "send c m g = (r, g')" by (cases "send c m g")
  have "debtors g' = debtors g" using send_debtors [of c m g] s by simp
  with Cons.IH [of g'] a s show ?case by (cases r) simp_all
qed

lemma sendAll_userConnections: "userConnections (snd (sendAll ms g)) = userConnections g"
proof (induction ms arbitrary: g)
  case Nil
  show ?case by simp
next
  case (Cons a ms)
  obtain c m where a: "a = (c, m)" by (cases a)
  obtain r g' where s: "send c m g = (r, g')" by (cases "send c m g")
  have "userConnections g' = userConnections g" using send_userConnections [of c m g] s by simp
  with Cons.IH [of g'] a s show ?case by (cases r) simp_all
qed

lemma broadcast_debtors: "debtors (snd (broadcast m w g)) = debtors g"
  by (simp add: broadcast_def sendAll_debtors)

lemma broadcast_userConnections:
  "userConnections (snd (broadcast m w g)) = userConnections g"
  by (simp add: broadcast_def sendAll_userConnections)


section \<open>Registry and store after an event\<close>

lemma setState_maps:
  "debtors (setState c st g) = debtors g" "userConnections (setState c st g) = userConnections g"
  by (simp_all add: setState_def)

lemma close_maps:
  "debtors (close c g) = debtors g" "userConnections (close c g) = userConnections g"
  by (simp_all add: close_def)

lemma onConnect_rejected_maps:
  assumes "resolved ctx = None"
  shows "debtors (snd (onConnect pf rnd c ctx g)) = debtors g"
    and "userConnections (snd (onConnect pf rnd c ctx g)) = userConnections g"
proof -
  let ?m = "error_object ''GPS position required to use this application''"
  obtain r g' where s: "send c ?m g = (r, g')" by (cases "send c ?m g")
  have d: "debtors g' = debtors g" and u: "userConnections g' = userConnections g"
    using send_debtors [of c ?m g] send_userConnections [of c ?m g] s by simp_all
  from assms s d show "debtors (snd (onConnect pf rnd c ctx g)) = debtors g"
    by (cases r) (auto simp: onConnect_def resolved_def close_maps split: prod.splits option.splits if_splits)
  from assms s u show "userConnections (snd (onConnect pf rnd c ctx g)) = userConnections g"
    by (cases r) (auto simp: onConnect_def resolved_def close_maps split: prod.splits option.splits if_splits)
qed

lemma onConnect_accepted_maps:
  assumes "resolved ctx = Some (la, lo)"
  shows "debtors (snd (onConnect pf rnd c ctx g)) =
           AList.update (userId_of c ctx)
             (joined pf rnd (userId_of c ctx) la lo (map_of (debtors g) (userId_of c ctx))) (debtors g)"
    and "userConnections (snd (onConnect pf rnd c ctx g)) =
           AList.map_entry (userId_of c ctx) (insert c)
             (if map_of (userConnections g) (userId_of c ctx) = None
              then AList.update (userId_of c ctx) {} (userConnections g) else userConnections g)"
  using assms
  by (auto simp: onConnect_def resolved_def joined_def Let_def setState_maps
        broadcast_debtors broadcast_userConnections sendAll_debtors sendAll_userConnections
      simp del: sendAll.simps
      split: prod.splits option.splits if_splits)


lemma handleDisconnect_debtors:
  "debtors (snd (handleDisconnect x g)) =
    (case state x of
       None \<Rightarrow> debtors g
     | Some st \<Rightarrow>
         (case map_of (userConnections g) (userId st) of
            None \<Rightarrow> debtors g
          | Some s \<Rightarrow> if s - {connectionId st} = {} then AList.delete (userId st) (debtors g)
                      else debtors g))"
  by (simp add: handleDisconnect_def Let_def broadcast_debtors split: option.splits)

lemma handleDisconnect_userConnections:
  "userConnections (snd (handleDisconnect x g)) =
    (case state x of
       None \<Rightarrow> userConnections g
     | Some st \<Rightarrow>
         (case map_of (userConnections g) (userId st) of
            None \<Rightarrow> userConnections g
          | Some s \<Rightarrow>
              if s - {connectionId st} = {} then AList.delete (userId st) (userConnections g)
              else AList.map_entry (userId st) (\<lambda>s. s - {connectionId st}) (userConnections g)))"
proof -
  have del: "AList.delete k (AList.map_entry k f al) = AList.delete k al" for k f and al :: "(string \<times> string set) list"
    by (induction al) auto
  show ?thesis
    by (simp add: handleDisconnect_def Let_def broadcast_userConnections del split: option.splits)
qed

lemma consistent_onConnect:
  assumes "consistent g"
  shows "consistent (snd (onConnect pf rnd c ctx g))"
proof (cases "resolved ctx")
  case None
  with assms show ?thesis
    by (simp add: consistent_def registered_def onConnect_rejected_maps)
next
  case (Some p)
  obtain la lo where p: "p = (la, lo)" by (cases p)
  let ?u = "userId_of c ctx"
  have d: "dom (map_of (debtors (snd (onConnect pf rnd c ctx g)))) = insert ?u (dom (map_of (debtors g)))"
    using Some p by (simp add: onConnect_accepted_maps update_conv')
  have r: "registered (snd (onConnect pf rnd c ctx g)) = insert ?u (registered g)"
    using Some p
    by (auto simp: registered_def onConnect_accepted_maps map_of_map_entry update_conv'
          split: if_splits option.splits)
  from assms d r show ?thesis by (simp add: consistent_def)
qed

lemma consistent_handleDisconnect:
  assumes "consistent g"
  shows "consistent (snd (handleDisconnect x g))"
proof (cases "state x")
  case None
  with assms show ?thesis by (simp add: handleDisconnect_def)
next
  case (Some st)
  show ?thesis
  proof (cases "map_of (userConnections g) (userId st)")
    case None
    with Some assms show ?thesis by (simp add: handleDisconnect_def)
  next
    case (Some s)
    show ?thesis
    proof (cases "s - {connectionId st} = {}")
      case True
      have "dom (map_of (debtors (snd (handleDisconnect x g)))) = dom (map_of (debtors g)) - {userId st}"
        using \<open>state x = Some st\<close> Some True
        by (simp add: handleDisconnect_debtors delete_conv')
      moreover have "registered (snd (handleDisconnect x g)) = registered g - {userId st}"
        using \<open>state x = Some st\<close> Some True
        by (auto simp: registered_def handleDisconnect_userConnections delete_conv')
      ultimately show ?thesis using assms by (simp add: consistent_def)
    next
      case False
      have "dom (map_of (debtors (snd (handleDisconnect x g)))) = dom (map_of (debtors g))"
        using \<open>state x = Some st\<close> Some False
        by (simp add: handleDisconnect_debtors)
      moreover have "registered (snd (handleDisconnect x g)) = insert (userId st) (registered g)"
        using \<open>state x = Some st\<close> Some False
        by (auto simp: registered_def handleDisconnect_userConnections map_of_map_entry)
      moreover have "userId st \<in> registered g"
        using Some False by (auto simp: registered_def)
      ultimately show ?thesis using assms by (auto simp: consistent_def)
    qed
  qed
qed

lemma consistent_step:
  assumes "consistent g"
  shows "consistent (snd (step pf e g))"
proof (cases e)
  case (Connect c ctx rnd)
  have "consistent (accept c g)" using assms by (simp add: consistent_def registered_def accept_def)
  then show ?thesis using Connect by (simp add: consistent_onConnect)
next
  case (Close c)
  have "consistent (close c g)" using assms by (simp add: consistent_def registered_def close_def)
  then show ?thesis using Close assms
    by (simp add: onClose_def consistent_handleDisconnect split: option.splits)
next
  case (Error c)
  have "consistent (close c g)" using assms by (simp add: consistent_def registered_def close_def)
  then show ?thesis using Error assms
    by (simp add: onError_def consistent_handleDisconnect split: option.splits)
next
  case (Drop c)
  then show ?thesis using assms by (simp add: consistent_def registered_def)
qed

lemma consistent_run: "consistent g \<Longrightarrow> consistent (run pf es g)"
  by (induction es arbitrary: g) (simp_all add: consistent_step)

text \<open>
  Claim C1. After any finite sequence of events, each processed to completion from the
  empty server, the identities that have a record in \<open>debtors\<close> are exactly the
  identities that \<open>userConnections\<close> maps to a non-empty set of connections.
\<close>

theorem C1_store_equals_registered: "dom (map_of (debtors (run pf es initial))) = registered (run pf es initial)"
proof -
  have "consistent (initial :: 'n Globe)" by (simp add: consistent_def registered_def initial_def)
  then have "consistent (run pf es initial)" by (rule consistent_run)
  then show ?thesis by (simp add: consistent_def)
qed

section \<open>Evaluation of the model on concrete values\<close>

lemmas model_defs =
  initial_def accept_def onConnect_def userId_of_def query_def coordinates_def
  setState_def close_def broadcast_def send_def newDebtorInfo_def sample_def
  handleDisconnect_def onClose_def onError_def received_def Let_def




section \<open>Position ids\<close>

lemma list_all_update:
  "P (k, v) \<Longrightarrow> list_all P al \<Longrightarrow> list_all P (AList.update k v al)"
  by (induction al) auto

lemma list_all_delete: "list_all P al \<Longrightarrow> list_all P (AList.delete k al)"
  by (induction al) auto

lemma userId_of_nonempty: "c \<noteq> [] \<Longrightarrow> userId_of c ctx \<noteq> []"
  by (simp add: userId_of_def split: option.splits)

lemma ids_ok_onConnect:
  assumes "ids_ok g" and "c \<noteq> []"
  shows "ids_ok (snd (onConnect pf rnd c ctx g))"
proof (cases "resolved ctx")
  case None
  with assms show ?thesis by (simp add: ids_ok_def onConnect_rejected_maps)
next
  case (Some p)
  obtain la lo where p: "p = (la, lo)" by (cases p)
  let ?u = "userId_of c ctx"
  have u: "?u \<noteq> []" using assms(2) by (rule userId_of_nonempty)
  have "id' (position (joined pf rnd ?u la lo (map_of (debtors g) ?u))) = ?u"
  proof (cases "map_of (debtors g) ?u")
    case None
    then show ?thesis by (simp add: joined_def newDebtorInfo_def)
  next
    case (Some old)
    then have "(?u, old) \<in> set (debtors g)" by (rule map_of_SomeD)
    with assms(1) have "id' (position old) = ?u"
      by (auto simp: ids_ok_def list_all_iff)
    with Some show ?thesis by (simp add: joined_def)
  qed
  with u assms(1) Some p show ?thesis
    by (simp add: ids_ok_def onConnect_accepted_maps list_all_update)
qed

lemma ids_ok_handleDisconnect:
  assumes "ids_ok g"
  shows "ids_ok (snd (handleDisconnect x g))"
  using assms
  by (simp add: ids_ok_def handleDisconnect_debtors list_all_delete split: option.splits)
text \<open>
  Claim C6. \<open>onConnect\<close> (whether it turns the connection away, creates a record or
  updates the position of an existing one) and \<open>handleDisconnect\<close> preserve the
  invariant that every record of \<open>debtors\<close> has its key as \<open>position.id\<close> and that the
  key is a non-empty string, for connections whose id is not empty (the transport
  generates the id of a connection that brings none).
\<close>

theorem C6_position_id_is_identity:
  assumes "ids_ok g" and "c \<noteq> []"
  shows "ids_ok (snd (onConnect pf rnd c ctx g)) \<and> ids_ok (snd (handleDisconnect x g))"
  using assms by (simp add: ids_ok_onConnect ids_ok_handleDisconnect)

theorem C6_position_id_is_identity_witness:
  "ids_ok one_user \<and> ''B'' \<noteq> [] \<and>
   ids_ok (snd (onConnect (\<lambda>s. s) sample ''B'' (query ''2'' ''2'' ''u2'') one_user)) \<and>
   ids_ok (snd (handleDisconnect \<lparr>state = Some \<lparr>userId = ''u1'', connectionId = ''A''\<rparr>, sent = [], isOpen = False, sendFails = False\<rparr> one_user))"
proof -
  have h: "ids_ok one_user"
    by (simp add: ids_ok_def one_user_def model_defs)
  have n: "''B'' \<noteq> []" by simp
  from C6_position_id_is_identity [OF h n] h n show ?thesis by blast
qed


section \<open>A successful broadcast\<close>

lemma broadcast_healthy:
  assumes "healthy g"
  shows "broadcast m w g = (Returned, g\<lparr>connections := deliver m w (connections g)\<rparr>)"
proof -
  from assms have nf: "list_all (\<lambda>(c, x). \<not> (isOpen x \<and> sendFails x)) (connections g)"
    by (simp add: healthy_def)
  have "map (\<lambda>(c, x).
                if isOpen x \<and> c \<notin> set w
                then (if sendFails x then (c, x\<lparr>isOpen := False\<rparr>)
                      else (c, x\<lparr>sent := sent x @ [m]\<rparr>))
                else (c, x)) (connections g) = deliver m w (connections g)"
    unfolding deliver_def
  proof (rule map_cong [OF refl])
    fix p assume p: "p \<in> set (connections g)"
    obtain c x where cx: "p = (c, x)" by (cases p)
    from nf p cx have "\<not> (isOpen x \<and> sendFails x)" by (auto simp: list_all_iff)
    with cx show "(case p of (c, x) \<Rightarrow>
          if isOpen x \<and> c \<notin> set w
          then (if sendFails x then (c, x\<lparr>isOpen := False\<rparr>)
                else (c, x\<lparr>sent := sent x @ [m]\<rparr>))
          else (c, x)) =
        (case p of (c, x) \<Rightarrow>
          if isOpen x \<and> c \<notin> set w then (c, x\<lparr>sent := sent x @ [m]\<rparr>) else (c, x))"
      by auto
  qed
  then show ?thesis by (simp add: broadcast_def)
qed





section \<open>What the handlers do to the connections\<close>

lemma map_entry_update:
  "AList.map_entry k f (AList.update k v al) = AList.update k (f v) al"
  by (induction al) auto

lemma send_others:
  "k \<noteq> c \<Longrightarrow> map_of (connections (snd (send c m g))) k = map_of (connections g) k"
  by (simp add: send_def map_of_map_entry split: option.splits)

lemma sendAll_others:
  "k \<notin> fst ` set ms \<Longrightarrow> map_of (connections (snd (sendAll ms g))) k = map_of (connections g) k"
proof (induction ms arbitrary: g)
  case Nil
  show ?case by simp
next
  case (Cons a ms)
  obtain c m where a: "a = (c, m)" by (cases a)
  obtain r g' where s: "send c m g = (r, g')" by (cases "send c m g")
  from Cons.prems a have kc: "k \<noteq> c" and km: "k \<notin> fst ` set ms" by auto
  have "map_of (connections g') k = map_of (connections g) k"
    using send_others [OF kc, of m g] s by simp
  with Cons.IH [OF km, of g'] a s show ?case by (cases r) simp_all
qed

lemma send_state:
  "map_option state (map_of (connections (snd (send c m g))) k) = map_option state (map_of (connections g) k)"
  by (simp add: send_def map_of_map_entry split: option.splits)

lemma step_Connect_rejected:
  assumes "resolved ctx = None"
  shows "step pf (Connect c ctx rnd) g =
    (Returned, g\<lparr>connections := AList.update c rejected (connections g)\<rparr>)"
proof -
  let ?m = "error_object ''GPS position required to use this application'' :: 'a Json"
  have "send c ?m (accept c g) =
      (Returned, g\<lparr>connections := AList.update c
         \<lparr>state = None, sent = [?m], isOpen = True, sendFails = False\<rparr> (connections g)\<rparr>)"
    by (simp add: send_def accept_def update_conv' map_entry_update)
  then have "(case send c ?m (accept c g) of (Threw, g') \<Rightarrow> (Threw, g') | (Returned, g') \<Rightarrow> (Returned, close c g'))
      = (Returned, g\<lparr>connections := AList.update c rejected (connections g)\<rparr>)"
    by (simp add: close_def map_entry_update rejected_def)
  with assms show ?thesis
    by (auto simp: onConnect_def resolved_def simp del: sendAll.simps
          split: prod.splits option.splits if_splits)
qed

lemma resolved_None:
  "\<not> (truthy (fst (coordinates ctx)) \<and> truthy (snd (coordinates ctx))) \<Longrightarrow> resolved ctx = None"
  by (cases "coordinates ctx") (auto simp: resolved_def split: option.splits)

text \<open>
  Claim C3, as amended. When the coordinates that \<open>onConnect\<close> resolves (the query
  parameters \<open>lat\<close> and \<open>lng\<close> when both are non-empty, the platform's location
  otherwise) are not both non-empty strings, the connect event returns with the new
  connection holding exactly one message, the error, and closed, and with nothing else
  changed: both maps and every other connection are as before.
\<close>

theorem C3_unresolved_position_rejected:
  assumes "\<not> (truthy (fst (coordinates ctx)) \<and> truthy (snd (coordinates ctx)))"
  shows "step pf (Connect c ctx rnd) g =
    (Returned, g\<lparr>connections := AList.update c rejected (connections g)\<rparr>)"
  using assms by (intro step_Connect_rejected resolved_None)

theorem C3_unresolved_position_rejected_witness:
  "\<not> (truthy (fst (coordinates no_position)) \<and> truthy (snd (coordinates no_position))) \<and>
   step (\<lambda>s. s) (Connect ''B'' no_position sample) one_user =
    (Returned, one_user\<lparr>connections := AList.update ''B'' rejected (connections one_user)\<rparr>)"
proof -
  have h: "\<not> (truthy (fst (coordinates no_position)) \<and> truthy (snd (coordinates no_position)))"
    by (simp add: coordinates_def no_position_def)
  from C3_unresolved_position_rejected [OF h] h show ?thesis by blast
qed

text \<open>
  Claim C3 as stated fails: a request without \<open>lat\<close> and \<open>lng\<close> whose platform metadata
  carries a location is not turned away. The connection is registered, a record is
  created at the platform's location and broadcast, no error is sent and the connection
  stays open.
\<close>

theorem C3_fallback_counterexample:
  "map_of (searchParams (request (cf_only ''10'' ''20''))) ''lat'' = None \<and>
   map_of (searchParams (request (cf_only ''10'' ''20''))) ''lng'' = None \<and>
   received (snd (step (\<lambda>s. s) (Connect ''A'' (cf_only ''10'' ''20'') sample) initial)) ''A''
     = [(''add-debtor'', ''A'')] \<and>
   userConnections (snd (step (\<lambda>s. s) (Connect ''A'' (cf_only ''10'' ''20'') sample) initial))
     = [(''A'', {''A''})] \<and>
   map (\<lambda>(k, d). (k, position d)) (debtors (snd (step (\<lambda>s. s) (Connect ''A'' (cf_only ''10'' ''20'') sample) initial)))
     = [(''A'', \<lparr>lat = ''10'', lng = ''20'', id' = ''A''\<rparr>)] \<and>
   map (\<lambda>(k, x). (k, isOpen x)) (connections (snd (step (\<lambda>s. s) (Connect ''A'' (cf_only ''10'' ''20'') sample) initial)))
     = [(''A'', True)]"
  by (simp add: model_defs cf_only_def)

lemma onConnect_rejoin:
  assumes "resolved ctx = Some (la, lo)"
    and "map_of (debtors g) (userId_of c ctx) = Some old"
  shows "onConnect pf rnd c ctx g =
    sendAll
      ((c, Outgoing (add_debtor (joined pf rnd (userId_of c ctx) la lo (Some old)))) #
       map (\<lambda>(otherUserId, otherDebtor). (c, Outgoing (add_debtor otherDebtor)))
         (filter (\<lambda>(otherUserId, otherDebtor). otherUserId \<noteq> userId_of c ctx)
            (AList.update (userId_of c ctx) (joined pf rnd (userId_of c ctx) la lo (Some old)) (debtors g))))
      (g\<lparr>connections :=
           AList.map_entry c (\<lambda>x. x\<lparr>state := Some \<lparr>userId = userId_of c ctx, connectionId = c\<rparr>\<rparr>)
             (connections g),
         userConnections := registerConnection (userId_of c ctx) c (userConnections g),
         debtors := AList.update (userId_of c ctx) (joined pf rnd (userId_of c ctx) la lo (Some old)) (debtors g)\<rparr>)"
  using assms
  by (auto simp: onConnect_def resolved_def joined_def registerConnection_def Let_def setState_def
      simp del: sendAll.simps
      split: prod.splits option.splits if_splits)

lemma onConnect_fresh:
  assumes "resolved ctx = Some (la, lo)"
    and "map_of (debtors g) (userId_of c ctx) = None"
  shows "onConnect pf rnd c ctx g =
    broadcast (Outgoing (add_debtor (newDebtorInfo pf rnd (userId_of c ctx) la lo))) []
      (g\<lparr>connections :=
           AList.map_entry c (\<lambda>x. x\<lparr>state := Some \<lparr>userId = userId_of c ctx, connectionId = c\<rparr>\<rparr>)
             (connections g),
         userConnections := registerConnection (userId_of c ctx) c (userConnections g),
         debtors := AList.update (userId_of c ctx) (newDebtorInfo pf rnd (userId_of c ctx) la lo) (debtors g)\<rparr>)"
  using assms
  by (auto simp: onConnect_def resolved_def registerConnection_def Let_def setState_def
      simp del: sendAll.simps
      split: prod.splits option.splits if_splits)

lemma sendAll_one_target:
  assumes "\<And>p. p \<in> set ms \<Longrightarrow> fst p = c" and "k \<noteq> c"
  shows "map_of (connections (snd (sendAll ms g))) k = map_of (connections g) k"
proof -
  from assms have "k \<notin> fst ` set ms" by auto
  then show ?thesis by (rule sendAll_others)
qed

lemma step_Connect_rejoin_others:
  assumes "resolved ctx = Some (la, lo)"
    and "map_of (debtors g) (userId_of c ctx) = Some old"
    and "k \<noteq> c"
  shows "map_of (connections (snd (step pf (Connect c ctx rnd) g))) k = map_of (connections g) k"
proof -
  have d: "map_of (debtors (accept c g)) (userId_of c ctx) = Some old"
    using assms(2) by (simp add: accept_def)
  have "map_of (connections (snd (step pf (Connect c ctx rnd) g))) k =
      map_of (AList.map_entry c
        (\<lambda>x. x\<lparr>state := Some \<lparr>userId = userId_of c ctx, connectionId = c\<rparr>\<rparr>)
        (connections (accept c g))) k"
    unfolding step.simps onConnect_rejoin [OF assms(1) d]
    by (subst sendAll_one_target [where c = c]) (use assms(3) in auto)
  also have "\<dots> = map_of (connections g) k"
    using assms(3) by (simp add: map_of_map_entry accept_def update_conv')
  finally show ?thesis .
qed

text \<open>
  Claim C7. When a connection arrives for a user who has a record, the record stored
  afterwards is the prior record with only \<open>lat\<close> and \<open>lng\<close> of its position assigned
  (all other fields, the position id among them, and all other records are as before);
  the random values play no part in the result; and no connection other than the new one
  is sent anything or changed.
\<close>

theorem C7_rejoin_frame:
  assumes "resolved ctx = Some (la, lo)"
    and "map_of (debtors g) (userId_of c ctx) = Some old"
    and "k \<noteq> c"
  shows "debtors (snd (step pf (Connect c ctx rnd) g)) =
      AList.update (userId_of c ctx)
        (old\<lparr>position := (position old)\<lparr>lat := pf la, lng := pf lo\<rparr>\<rparr>) (debtors g)
    \<and> step pf (Connect c ctx rnd') g = step pf (Connect c ctx rnd) g
    \<and> map_of (connections (snd (step pf (Connect c ctx rnd) g))) k = map_of (connections g) k"
proof -
  have d: "map_of (debtors (accept c g)) (userId_of c ctx) = Some old"
    using assms(2) by (simp add: accept_def)
  have 1: "debtors (snd (step pf (Connect c ctx rnd) g)) =
      AList.update (userId_of c ctx)
        (old\<lparr>position := (position old)\<lparr>lat := pf la, lng := pf lo\<rparr>\<rparr>) (debtors g)"
    using assms(2) by (simp add: onConnect_accepted_maps [OF assms(1)] joined_def accept_def)
  have 2: "step pf (Connect c ctx rnd') g = step pf (Connect c ctx rnd) g"
    by (simp add: onConnect_rejoin [OF assms(1) d] joined_def del: sendAll.simps)
  from 1 2 step_Connect_rejoin_others [OF assms] show ?thesis by simp
qed

theorem C7_rejoin_frame_witness:
  "resolved (query ''5'' ''6'' ''u1'') = Some (''5'', ''6'') \<and>
   map_of (debtors one_user) (userId_of ''B'' (query ''5'' ''6'' ''u1'')) =
     Some (newDebtorInfo (\<lambda>s. s) sample ''u1'' ''1'' ''1'') \<and>
   ''A'' \<noteq> ''B'' \<and>
   debtors (snd (step (\<lambda>s. s) (Connect ''B'' (query ''5'' ''6'' ''u1'') sample) one_user)) =
     AList.update (userId_of ''B'' (query ''5'' ''6'' ''u1''))
       ((newDebtorInfo (\<lambda>s. s) sample ''u1'' ''1'' ''1'')
          \<lparr>position := (position (newDebtorInfo (\<lambda>s. s) sample ''u1'' ''1'' ''1''))
             \<lparr>lat := ''5'', lng := ''6''\<rparr>\<rparr>) (debtors one_user) \<and>
   step (\<lambda>s. s) (Connect ''B'' (query ''5'' ''6'' ''u1'') (sample\<lparr>rnd_above_0_7 := True\<rparr>)) one_user =
     step (\<lambda>s. s) (Connect ''B'' (query ''5'' ''6'' ''u1'') sample) one_user \<and>
   map_of (connections (snd (step (\<lambda>s. s) (Connect ''B'' (query ''5'' ''6'' ''u1'') sample) one_user))) ''A'' =
     map_of (connections one_user) ''A''"
proof -
  have r: "resolved (query ''5'' ''6'' ''u1'') = Some (''5'', ''6'')"
    by (simp add: resolved_def coordinates_def query_def)
  have d: "map_of (debtors one_user) (userId_of ''B'' (query ''5'' ''6'' ''u1'')) =
     Some (newDebtorInfo (\<lambda>s. s) sample ''u1'' ''1'' ''1'')"
    by (simp add: one_user_def model_defs)
  have n: "''A'' \<noteq> ''B''" by simp
  from C7_rejoin_frame [OF r d n, of "\<lambda>s. s" sample "sample\<lparr>rnd_above_0_7 := True\<rparr>"] r d n
  show ?thesis by simp
qed

lemma map_of_deliver:
  "map_of (deliver m w cs) k =
    map_option (\<lambda>x. if isOpen x \<and> k \<notin> set w then x\<lparr>sent := sent x @ [m]\<rparr> else x) (map_of cs k)"
  by (induction cs) (auto simp: deliver_def)

text \<open>
  Claim C5. For a user with the two connections \<open>c\<close> and \<open>c'\<close>, \<open>handleDisconnect\<close> of
  \<open>c\<close> only takes \<open>c\<close> out of the user's set: the record stays and nothing is sent.
  \<open>handleDisconnect\<close> of \<open>c'\<close> afterwards removes the user from both maps and delivers one
  \<open>remove-debtor\<close> message to every open connection other than \<open>c'\<close>.
\<close>

theorem C5_last_disconnect_removes:
  assumes "map_of (userConnections g) u = Some {c, c'}" and "c \<noteq> c'"
    and "state x = Some \<lparr>userId = u, connectionId = c\<rparr>"
    and "state x' = Some \<lparr>userId = u, connectionId = c'\<rparr>"
    and "healthy g"
  shows "handleDisconnect x g =
      (Returned, g\<lparr>userConnections := AList.map_entry u (\<lambda>s. s - {c}) (userConnections g)\<rparr>)
    \<and> handleDisconnect x' (snd (handleDisconnect x g)) =
      (Returned,
       g\<lparr>userConnections := AList.delete u (userConnections g),
         debtors := AList.delete u (debtors g),
         connections := deliver (Outgoing (remove_debtor u)) [c'] (connections g)\<rparr>)"
proof -
  let ?g1 = "g\<lparr>userConnections := AList.map_entry u (\<lambda>s. s - {c}) (userConnections g)\<rparr>"
  have ne: "{c, c'} - {c} = {c'}" using assms(2) by auto
  have 1: "handleDisconnect x g = (Returned, ?g1)"
    using assms(1,3) ne by (simp add: handleDisconnect_def)
  have m: "map_of (userConnections ?g1) u = Some {c'}"
    using assms(1) ne by (simp add: map_of_map_entry)
  have del: "AList.delete k (AList.map_entry k f al) = AList.delete k al"
    for k f and al :: "(string \<times> string set) list"
    by (induction al) auto
  let ?g2 = "g\<lparr>userConnections := AList.delete u (userConnections g),
               debtors := AList.delete u (debtors g)\<rparr>"
  have h2: "healthy ?g2" using assms(5) by (simp add: healthy_def)
  have "handleDisconnect x' ?g1 = broadcast (Outgoing (remove_debtor u)) [c'] ?g2"
    using assms(4) m by (simp add: handleDisconnect_def del)
  also have "\<dots> = (Returned, ?g2\<lparr>connections := deliver (Outgoing (remove_debtor u)) [c'] (connections ?g2)\<rparr>)"
    using h2 by (rule broadcast_healthy)
  finally show ?thesis using 1 by simp
qed

theorem C5_last_disconnect_removes_witness:
  "map_of (userConnections two_tabs) ''u1'' = Some {''A'', ''B''} \<and> ''A'' \<noteq> ''B'' \<and>
   healthy two_tabs \<and>
   handleDisconnect (closed_connection ''u1'' ''A'') two_tabs =
     (Returned,
      two_tabs\<lparr>userConnections :=
        AList.map_entry ''u1'' (\<lambda>s. s - {''A''}) (userConnections two_tabs)\<rparr>) \<and>
   handleDisconnect (closed_connection ''u1'' ''B'')
     (snd (handleDisconnect (closed_connection ''u1'' ''A'') two_tabs)) =
     (Returned,
      two_tabs\<lparr>userConnections := AList.delete ''u1'' (userConnections two_tabs),
        debtors := AList.delete ''u1'' (debtors two_tabs),
        connections := deliver (Outgoing (remove_debtor ''u1'')) [''B''] (connections two_tabs)\<rparr>)"
proof -
  have u: "map_of (userConnections two_tabs) ''u1'' = Some {''A'', ''B''}"
    by (simp add: two_tabs_def model_defs insert_commute)
  have n: "''A'' \<noteq> ''B''" by simp
  have h: "healthy two_tabs"
    by (simp add: healthy_def two_tabs_def model_defs)
  have a: "state (closed_connection ''u1'' ''A'' :: string Connection) =
      Some \<lparr>userId = ''u1'', connectionId = ''A''\<rparr>"
    and b: "state (closed_connection ''u1'' ''B'' :: string Connection) =
      Some \<lparr>userId = ''u1'', connectionId = ''B''\<rparr>"
    by (simp_all add: closed_connection_def)
  from C5_last_disconnect_removes [OF u n a b h] u n h show ?thesis by blast
qed

section \<open>Two connections of one user\<close>

lemma update_absent: "k \<notin> fst ` set al \<Longrightarrow> AList.update k v al = al @ [(k, v)]"
  by (induction al) auto

lemma map_entry_last:
  "k \<notin> fst ` set al \<Longrightarrow> AList.map_entry k f (al @ [(k, v)]) = al @ [(k, f v)]"
  by (induction al) auto

lemma step_Connect_fresh:
  assumes "healthy g" and "c \<notin> fst ` set (connections g)"
    and "resolved ctx = Some (la, lo)"
    and "map_of (debtors g) (userId_of c ctx) = None"
  shows "step pf (Connect c ctx rnd) g =
    (Returned,
     g\<lparr>connections :=
         deliver (Outgoing (add_debtor (newDebtorInfo pf rnd (userId_of c ctx) la lo))) []
           (connections g @
            [(c, \<lparr>state = Some \<lparr>userId = userId_of c ctx, connectionId = c\<rparr>, sent = [],
                  isOpen = True, sendFails = False\<rparr>)]),
       userConnections := registerConnection (userId_of c ctx) c (userConnections g),
       debtors := debtors g @ [(userId_of c ctx, newDebtorInfo pf rnd (userId_of c ctx) la lo)]\<rparr>)"
proof -
  let ?u = "userId_of c ctx"
  let ?new = "newDebtorInfo pf rnd ?u la lo"
  let ?cs = "connections g @
            [(c, \<lparr>state = Some \<lparr>userId = ?u, connectionId = c\<rparr>, sent = [],
                  isOpen = True, sendFails = False\<rparr>)]"
  let ?g = "g\<lparr>connections := ?cs,
       userConnections := registerConnection ?u c (userConnections g),
       debtors := debtors g @ [(?u, ?new)]\<rparr>"
  have a: "accept c g = g\<lparr>connections := connections g @
      [(c, \<lparr>state = None, sent = [], isOpen = True, sendFails = False\<rparr>)]\<rparr>"
    using assms(2) by (simp add: accept_def update_absent)
  have d: "map_of (debtors (accept c g)) (userId_of c ctx) = None"
    using assms(4) by (simp add: accept_def)
  from assms(4) have "?u \<notin> fst ` set (debtors g)" by (simp add: map_of_eq_None_iff)
  then have ud: "AList.update ?u ?new (debtors g) = debtors g @ [(?u, ?new)]"
    by (rule update_absent)
  have "step pf (Connect c ctx rnd) g = broadcast (Outgoing (add_debtor ?new)) [] ?g"
    unfolding step.simps onConnect_fresh [OF assms(3) d]
    using assms(2) ud by (simp add: a map_entry_last)
  moreover have "healthy ?g"
    using assms(1,2) by (simp add: healthy_def)
  ultimately show ?thesis by (simp add: broadcast_healthy)
qed

lemma step_Connect_others:
  assumes "k \<noteq> c" and "map_of (debtors g) (userId_of c ctx) \<noteq> None"
  shows "map_of (connections (snd (step pf (Connect c ctx rnd) g))) k = map_of (connections g) k"
proof (cases "resolved ctx")
  case None
  with assms(1) show ?thesis by (simp add: step_Connect_rejected update_conv' del: step.simps)
next
  case (Some p)
  obtain la lo where p: "p = (la, lo)" by (cases p)
  from assms(2) obtain old where "map_of (debtors g) (userId_of c ctx) = Some old" by auto
  with Some p assms(1) show ?thesis by (intro step_Connect_rejoin_others) auto
qed
text \<open>
  Claim C4. Two successive connects \<open>c1\<close> and \<open>c2\<close> of a user \<open>u\<close> who had no record:
  the first appends the one record of \<open>u\<close>, the second keeps that record and only assigns
  its position, so that exactly one record of \<open>u\<close> exists afterwards, with the payload of
  the first connect; a connection \<open>p\<close> that was open before the first connect is sent
  exactly one message over both connects, the \<open>add-debtor\<close> of the first, and nothing by
  the second.
\<close>

theorem C4_one_record_one_broadcast:
  assumes "healthy g"
    and "map_of (debtors g) u = None"
    and "c1 \<notin> fst ` set (connections g)" and "c2 \<notin> fst ` set (connections g)"
    and "resolved ctx1 = Some (la1, lo1)" and "resolved ctx2 = Some (la2, lo2)"
    and "userId_of c1 ctx1 = u" and "userId_of c2 ctx2 = u"
    and "map_of (connections g) p = Some y" and "isOpen y"
  shows "debtors (snd (step pf (Connect c1 ctx1 rnd1) g)) =
      debtors g @ [(u, newDebtorInfo pf rnd1 u la1 lo1)]
    \<and> debtors (snd (step pf (Connect c2 ctx2 rnd2) (snd (step pf (Connect c1 ctx1 rnd1) g)))) =
      debtors g @
      [(u, (newDebtorInfo pf rnd1 u la1 lo1)\<lparr>position := \<lparr>lat = pf la2, lng = pf lo2, id' = u\<rparr>\<rparr>)]
    \<and> length (filter (\<lambda>(k, d). k = u)
        (debtors (snd (step pf (Connect c2 ctx2 rnd2) (snd (step pf (Connect c1 ctx1 rnd1) g)))))) = 1
    \<and> map_of (connections (snd (step pf (Connect c1 ctx1 rnd1) g))) p =
      Some (y\<lparr>sent := sent y @ [Outgoing (add_debtor (newDebtorInfo pf rnd1 u la1 lo1))]\<rparr>)
    \<and> map_of (connections (snd (step pf (Connect c2 ctx2 rnd2) (snd (step pf (Connect c1 ctx1 rnd1) g))))) p =
      map_of (connections (snd (step pf (Connect c1 ctx1 rnd1) g))) p"
proof -
  let ?new = "newDebtorInfo pf rnd1 u la1 lo1"
  let ?g1 = "snd (step pf (Connect c1 ctx1 rnd1) g)"
  let ?g2 = "snd (step pf (Connect c2 ctx2 rnd2) ?g1)"
  have nu: "u \<notin> fst ` set (debtors g)" using assms(2) by (simp add: map_of_eq_None_iff)
  have g1: "step pf (Connect c1 ctx1 rnd1) g =
    (Returned,
     g\<lparr>connections :=
         deliver (Outgoing (add_debtor ?new)) []
           (connections g @
            [(c1, \<lparr>state = Some \<lparr>userId = u, connectionId = c1\<rparr>, sent = [],
                  isOpen = True, sendFails = False\<rparr>)]),
       userConnections := registerConnection u c1 (userConnections g),
       debtors := debtors g @ [(u, ?new)]\<rparr>)"
    using step_Connect_fresh [OF assms(1,3,5), of pf rnd1] assms(2,7) by simp
  have 1: "debtors ?g1 = debtors g @ [(u, ?new)]" by (simp add: g1 del: step.simps)
  have old: "map_of (debtors ?g1) (userId_of c2 ctx2) = Some ?new"
    using assms(2,8) by (simp add: 1 map_add_Some_iff del: step.simps)
  have "debtors ?g2 = AList.update u (joined pf rnd2 u la2 lo2 (Some ?new)) (debtors ?g1)"
    using onConnect_accepted_maps(1) [OF assms(6), of pf rnd2 c2 "accept c2 ?g1"] old assms(8)
    by (simp add: accept_def)
  also have "\<dots> = debtors g @ [(u, joined pf rnd2 u la2 lo2 (Some ?new))]"
    using nu by (simp add: 1 update_absent [symmetric] del: step.simps)
  also have "joined pf rnd2 u la2 lo2 (Some ?new) =
      ?new\<lparr>position := \<lparr>lat = pf la2, lng = pf lo2, id' = u\<rparr>\<rparr>"
    by (simp add: joined_def newDebtorInfo_def)
  finally have 2: "debtors ?g2 = debtors g @
      [(u, ?new\<lparr>position := \<lparr>lat = pf la2, lng = pf lo2, id' = u\<rparr>\<rparr>)]" .
  have "filter (\<lambda>(k, d). k = u) (debtors g) = []"
    using nu by (force simp: filter_empty_conv)
  then have 3: "length (filter (\<lambda>(k, d). k = u) (debtors ?g2)) = 1"
    by (simp add: 2 del: step.simps)
  have pc1: "p \<noteq> c1" and pc2: "p \<noteq> c2"
    using assms(3,4,9) by (auto dest: map_of_SomeD simp: rev_image_eqI)
  have 4: "map_of (connections ?g1) p =
      Some (y\<lparr>sent := sent y @ [Outgoing (add_debtor ?new)]\<rparr>)"
    using assms(9,10) pc1 by (simp add: g1 map_of_deliver del: step.simps)
  have 5: "map_of (connections ?g2) p = map_of (connections ?g1) p"
    using pc2 old by (intro step_Connect_others) auto
  from 1 2 3 4 5 show ?thesis by blast
qed

theorem C4_one_record_one_broadcast_witness:
  "healthy one_user \<and> map_of (debtors one_user) ''u2'' = None \<and>
   ''B'' \<notin> fst ` set (connections one_user) \<and> ''C'' \<notin> fst ` set (connections one_user) \<and>
   resolved (query ''2'' ''2'' ''u2'') = Some (''2'', ''2'') \<and>
   resolved (query ''4'' ''4'' ''u2'') = Some (''4'', ''4'') \<and>
   userId_of ''B'' (query ''2'' ''2'' ''u2'') = ''u2'' \<and>
   userId_of ''C'' (query ''4'' ''4'' ''u2'') = ''u2'' \<and>
   map_of (connections one_user) ''A'' = Some live_A \<and> isOpen live_A \<and>
   debtors (snd (step (\<lambda>s. s) (Connect ''B'' (query ''2'' ''2'' ''u2'') sample) one_user)) =
      debtors one_user @ [(''u2'', newDebtorInfo (\<lambda>s. s) sample ''u2'' ''2'' ''2'')] \<and>
   debtors (snd (step (\<lambda>s. s) (Connect ''C'' (query ''4'' ''4'' ''u2'') sample)
       (snd (step (\<lambda>s. s) (Connect ''B'' (query ''2'' ''2'' ''u2'') sample) one_user)))) =
      debtors one_user @
      [(''u2'', (newDebtorInfo (\<lambda>s. s) sample ''u2'' ''2'' ''2'')
          \<lparr>position := \<lparr>lat = ''4'', lng = ''4'', id' = ''u2''\<rparr>\<rparr>)] \<and>
   length (filter (\<lambda>(k, d). k = ''u2'')
        (debtors (snd (step (\<lambda>s. s) (Connect ''C'' (query ''4'' ''4'' ''u2'') sample)
          (snd (step (\<lambda>s. s) (Connect ''B'' (query ''2'' ''2'' ''u2'') sample) one_user)))))) = 1 \<and>
   map_of (connections (snd (step (\<lambda>s. s) (Connect ''B'' (query ''2'' ''2'' ''u2'') sample) one_user))) ''A'' =
      Some (live_A\<lparr>sent := sent live_A @
        [Outgoing (add_debtor (newDebtorInfo (\<lambda>s. s) sample ''u2'' ''2'' ''2''))]\<rparr>) \<and>
   map_of (connections (snd (step (\<lambda>s. s) (Connect ''C'' (query ''4'' ''4'' ''u2'') sample)
       (snd (step (\<lambda>s. s) (Connect ''B'' (query ''2'' ''2'' ''u2'') sample) one_user))))) ''A'' =
      map_of (connections (snd (step (\<lambda>s. s) (Connect ''B'' (query ''2'' ''2'' ''u2'') sample) one_user))) ''A''"
proof -
  have h: "healthy one_user" by (simp add: healthy_def one_user_def model_defs)
  have d: "map_of (debtors one_user) ''u2'' = None" by (simp add: one_user_def model_defs)
  have b: "''B'' \<notin> fst ` set (connections one_user)"
    and c: "''C'' \<notin> fst ` set (connections one_user)"
    by (simp_all add: one_user_def model_defs)
  have r1: "resolved (query ''2'' ''2'' ''u2'') = Some (''2'', ''2'')"
    and r2: "resolved (query ''4'' ''4'' ''u2'') = Some (''4'', ''4'')"
    by (simp_all add: resolved_def coordinates_def query_def Let_def)
  have u1: "userId_of ''B'' (query ''2'' ''2'' ''u2'') = ''u2''"
    and u2: "userId_of ''C'' (query ''4'' ''4'' ''u2'') = ''u2''"
    by (simp_all add: userId_of_def query_def)
  have a: "map_of (connections one_user) ''A'' = Some live_A"
    by (simp add: one_user_def live_A_def model_defs)
  have o: "isOpen live_A" by (simp add: live_A_def)
  from C4_one_record_one_broadcast [OF h d b c r1 r2 u1 u2 a o, of "\<lambda>s. s" sample sample] h d b c r1 r2 u1 u2 a o
  show ?thesis by blast
qed


section \<open>A send that fails\<close>












section \<open>The first connection of a second user\<close>

text \<open>
  Claim C2, evaluated. \<open>A\<close> connects as the new user \<open>u1\<close>, then \<open>B\<close> as the new user
  \<open>u2\<close>. \<open>A\<close> is sent \<open>add-debtor\<close> of \<open>u1\<close> and then of \<open>u2\<close>; \<open>B\<close> is sent \<open>add-debtor\<close>
  of \<open>u2\<close> only: on the creation path the new connection is not sent the records that
  exist already, which the path for an existing user (lines 107 to 117) does send.
\<close>

theorem C2_new_user_receives_only_itself:
  "received (run (\<lambda>s. s) [Connect ''A'' (query ''1'' ''1'' ''u1'') sample] initial) ''A''
     = [(''add-debtor'', ''u1'')] \<and>
   received (run (\<lambda>s. s) [Connect ''A'' (query ''1'' ''1'' ''u1'') sample,
                           Connect ''B'' (query ''2'' ''2'' ''u2'') sample] initial) ''A''
     = [(''add-debtor'', ''u1''), (''add-debtor'', ''u2'')] \<and>
   received (run (\<lambda>s. s) [Connect ''A'' (query ''1'' ''1'' ''u1'') sample,
                           Connect ''B'' (query ''2'' ''2'' ''u2'') sample] initial) ''B''
     = [(''add-debtor'', ''u2'')]"
  by (simp add: model_defs)


section \<open>Disconnecting twice\<close>

lemma map_entry_twice:
  "(\<And>v. f (f v) = f v) \<Longrightarrow> AList.map_entry k f (AList.map_entry k f al) = AList.map_entry k f al"
  by (induction al) auto

lemma handleDisconnect_no_state: "handleDisconnect (x\<lparr>state := None\<rparr>) g = (Returned, g)"
  by (simp add: handleDisconnect_def)

lemma handleDisconnect_again:
  "handleDisconnect x (snd (handleDisconnect x g)) = (Returned, snd (handleDisconnect x g))"
proof (cases "state x")
  case None
  then show ?thesis by (simp add: handleDisconnect_def)
next
  case (Some st)
  let ?u = "userId st" and ?c = "connectionId st"
  show ?thesis
  proof (cases "map_of (userConnections g) ?u")
    case None
    with Some show ?thesis by (simp add: handleDisconnect_def)
  next
    case (Some s)
    let ?g' = "snd (handleDisconnect x g)"
    show ?thesis
    proof (cases "s - {?c} = {}")
      case True
      have "map_of (userConnections ?g') ?u = None"
        using \<open>state x = Some st\<close> Some True
        by (simp add: handleDisconnect_userConnections delete_conv')
      with \<open>state x = Some st\<close> show ?thesis by (simp add: handleDisconnect_def)
    next
      case False
      have g': "?g' = g\<lparr>userConnections := AList.map_entry ?u (\<lambda>s. s - {?c}) (userConnections g)\<rparr>"
        using \<open>state x = Some st\<close> Some False by (simp add: handleDisconnect_def)
      have m: "map_of (userConnections ?g') ?u = Some (s - {?c})"
        using Some by (simp add: g' map_of_map_entry)
      have "handleDisconnect x ?g' =
              (Returned, ?g'\<lparr>userConnections := AList.map_entry ?u (\<lambda>s. s - {?c}) (userConnections ?g')\<rparr>)"
        using \<open>state x = Some st\<close> m False by (simp add: handleDisconnect_def)
      also have "AList.map_entry ?u (\<lambda>s. s - {?c}) (userConnections ?g') = userConnections ?g'"
        by (simp add: g' map_entry_twice)
      finally show ?thesis by simp
    qed
  qed
qed
text \<open>
  Claim C10. \<open>handleDisconnect\<close> of a connection without state returns and changes
  nothing. \<open>handleDisconnect\<close> of a connection that it has already handled returns and
  changes nothing, whatever the server and the connection: no map entry changes and no
  message is sent. The same holds for \<open>onClose\<close> and \<open>onError\<close> in any order.
\<close>

theorem C10_disconnect_idempotent:
  "handleDisconnect (x\<lparr>state := None\<rparr>) g = (Returned, g) \<and>
   handleDisconnect x (snd (handleDisconnect x g)) = (Returned, snd (handleDisconnect x g)) \<and>
   onClose x (snd (onClose x g)) = (Returned, snd (onClose x g)) \<and>
   onError x (snd (onClose x g)) = (Returned, snd (onClose x g)) \<and>
   onError x (snd (onError x g)) = (Returned, snd (onError x g))"
  by (simp add: handleDisconnect_no_state handleDisconnect_again onClose_def onError_def)


section \<open>The types of the messages\<close>

lemma sent_in_Nil: "sent_in [] = {}"
  by (simp add: sent_in_def)

lemma sent_in_Cons: "sent_in (p # cs) = set (sent (snd p)) \<union> sent_in cs"
  by (simp add: sent_in_def split_def)

lemma sent_in_map_entry:
  assumes "\<And>x. set (sent (f x)) \<subseteq> set (sent x) \<union> M"
  shows "sent_in (AList.map_entry k f cs) \<subseteq> sent_in cs \<union> M"
proof (induction cs)
  case Nil
  show ?case by (simp add: sent_in_Nil)
next
  case (Cons p cs)
  show ?case
  proof (cases "fst p = k")
    case True
    with assms [of "snd p"] show ?thesis by (auto simp: sent_in_Cons)
  next
    case False
    with Cons.IH show ?thesis by (auto simp: sent_in_Cons)
  qed
qed

lemma sent_in_update:
  "sent_in (AList.update k v cs) \<subseteq> sent_in cs \<union> set (sent v)"
proof (induction cs)
  case Nil
  show ?case by (simp add: sent_in_Nil sent_in_Cons)
next
  case (Cons p cs)
  show ?case
  proof (cases "fst p = k")
    case True
    then show ?thesis by (auto simp: sent_in_Cons)
  next
    case False
    with Cons.IH show ?thesis by (auto simp: sent_in_Cons)
  qed
qed

lemma tags_sent_in: "tags g = type_tag ` sent_in (connections g)"
  by (simp add: tags_def emitted_def sent_in_def)

lemma tags_send: "tags (snd (send c m g)) \<subseteq> insert (type_tag m) (tags g)"
proof -
  have "sent_in (AList.map_entry c (\<lambda>x. x\<lparr>sent := sent x @ [m]\<rparr>) (connections g))
      \<subseteq> sent_in (connections g) \<union> {m}"
    by (rule sent_in_map_entry) auto
  then show ?thesis
    by (auto simp: tags_sent_in send_def split: option.splits)
qed

lemma tags_sendAll:
  "tags (snd (sendAll ms g)) \<subseteq> tags g \<union> type_tag ` snd ` set ms"
proof (induction ms arbitrary: g)
  case Nil
  show ?case by simp
next
  case (Cons a ms)
  obtain c m where a: "a = (c, m)" by (cases a)
  obtain r g' where s: "send c m g = (r, g')" by (cases "send c m g")
  have 1: "tags g' \<subseteq> insert (type_tag m) (tags g)"
    using tags_send [of c m g] s by simp
  show ?case
  proof (cases r)
    case Returned
    with Cons.IH [of g'] a s 1 show ?thesis by auto
  next
    case Threw
    with a s 1 show ?thesis by auto
  qed
qed

lemma tags_broadcast: "tags (snd (broadcast m w g)) \<subseteq> insert (type_tag m) (tags g)"
proof -
  have "sent_in (map (\<lambda>(c, x).
                if isOpen x \<and> c \<notin> set w
                then (if sendFails x then (c, x\<lparr>isOpen := False\<rparr>)
                      else (c, x\<lparr>sent := sent x @ [m]\<rparr>))
                else (c, x)) cs) \<subseteq> sent_in cs \<union> {m}"
    for cs :: "(string \<times> 'a Connection) list"
  proof (induction cs)
    case Nil
    show ?case by (simp add: sent_in_Nil)
  next
    case (Cons p cs)
    obtain c x where "p = (c, x)" by (cases p)
    with Cons.IH show ?case by (auto simp: sent_in_Cons)
  qed
  then show ?thesis by (auto simp: tags_sent_in broadcast_def)
qed

lemma tags_map_entry_same:
  assumes "\<And>x. sent (f x) = sent x"
  shows "tags (g\<lparr>connections := AList.map_entry k f (connections g)\<rparr>) \<subseteq> tags g"
proof -
  have "sent_in (AList.map_entry k f (connections g)) \<subseteq> sent_in (connections g) \<union> {}"
    by (rule sent_in_map_entry) (simp add: assms)
  then show ?thesis by (auto simp: tags_sent_in)
qed

lemma tags_accept: "tags (accept c g) \<subseteq> tags g"
proof -
  have "sent_in (AList.update c \<lparr>state = None, sent = [], isOpen = True, sendFails = False\<rparr> (connections g))
      \<subseteq> sent_in (connections g) \<union> set (sent \<lparr>state = None, sent = ([] :: 'a Json list), isOpen = True, sendFails = False\<rparr>)"
    by (rule sent_in_update)
  then show ?thesis by (auto simp: tags_sent_in accept_def)
qed

lemma tags_close: "tags (close c g) \<subseteq> tags g"
  unfolding close_def by (rule tags_map_entry_same) simp

lemma tags_maps [simp]:
  "tags (g\<lparr>userConnections := u\<rparr>) = tags g" "tags (g\<lparr>debtors := d\<rparr>) = tags g"
  by (simp_all add: tags_def emitted_def)

lemma tags_onConnect:
  "tags (snd (onConnect pf rnd c ctx g)) \<subseteq> tags g \<union> {''add-debtor'', ''error''}"
proof (cases "resolved ctx")
  case None
  let ?m = "error_object ''GPS position required to use this application'' :: 'a Json"
  obtain r g' where s: "send c ?m g = (r, g')" by (cases "send c ?m g")
  have 1: "tags g' \<subseteq> insert ''error'' (tags g)" using tags_send [of c ?m g] s by simp
  have 2: "tags (close c g') \<subseteq> tags g'" by (rule tags_close)
  have "snd (onConnect pf rnd c ctx g) = (case r of Threw \<Rightarrow> g' | Returned \<Rightarrow> close c g')"
    using None s
    by (auto simp: onConnect_def resolved_def simp del: sendAll.simps
          split: prod.splits option.splits if_splits outcome.splits)
  with 1 2 show ?thesis by (cases r) auto
next
  case (Some p)
  obtain la lo where p: "p = (la, lo)" by (cases p)
  let ?st = "\<lambda>x::'a Connection. x\<lparr>state := Some \<lparr>userId = userId_of c ctx, connectionId = c\<rparr>\<rparr>"
  have st: "tags (g\<lparr>connections := AList.map_entry c ?st (connections g)\<rparr>) \<subseteq> tags g"
    by (rule tags_map_entry_same) simp
  show ?thesis
  proof (cases "map_of (debtors g) (userId_of c ctx)")
    case None
    show ?thesis
      unfolding onConnect_fresh [OF Some [unfolded p] None]
      using tags_broadcast [of "Outgoing (add_debtor (newDebtorInfo pf rnd (userId_of c ctx) la lo))" "[]"
          "g\<lparr>connections := AList.map_entry c ?st (connections g),
             userConnections := registerConnection (userId_of c ctx) c (userConnections g),
             debtors := AList.update (userId_of c ctx) (newDebtorInfo pf rnd (userId_of c ctx) la lo) (debtors g)\<rparr>"]
        st
      by auto
  next
    case (Some old)
    let ?d = "joined pf rnd (userId_of c ctx) la lo (Some old)"
    let ?ms = "(c, Outgoing (add_debtor ?d)) #
       map (\<lambda>(otherUserId, otherDebtor). (c, Outgoing (add_debtor otherDebtor)))
         (filter (\<lambda>(otherUserId, otherDebtor). otherUserId \<noteq> userId_of c ctx)
            (AList.update (userId_of c ctx) ?d (debtors g)))"
    have "type_tag ` snd ` set ?ms \<subseteq> {''add-debtor''}" by auto
    with tags_sendAll [of ?ms "g\<lparr>connections := AList.map_entry c ?st (connections g),
             userConnections := registerConnection (userId_of c ctx) c (userConnections g),
             debtors := AList.update (userId_of c ctx) ?d (debtors g)\<rparr>"] st
    show ?thesis
      unfolding onConnect_rejoin [OF \<open>resolved ctx = Some p\<close> [unfolded p] Some]
      by auto
  qed
qed

lemma tags_handleDisconnect:
  "tags (snd (handleDisconnect x g)) \<subseteq> tags g \<union> {''remove-debtor''}"
proof -
  have "tags (snd (broadcast (Outgoing (remove_debtor u)) w (g\<lparr>userConnections := a, debtors := b\<rparr>)))
      \<subseteq> tags g \<union> {''remove-debtor''}" for u w a b
    using tags_broadcast [of "Outgoing (remove_debtor u)" w "g\<lparr>userConnections := a, debtors := b\<rparr>"]
    by simp
  then show ?thesis
    by (auto simp: handleDisconnect_def Let_def split: option.splits)
qed

lemma tags_step:
  "tags (snd (step pf e g)) \<subseteq> tags g \<union> {''add-debtor'', ''remove-debtor'', ''error''}"
proof (cases e)
  case (Connect c ctx rnd)
  with tags_onConnect [of pf rnd c ctx "accept c g"] tags_accept [of c g]
  show ?thesis by auto
next
  case (Close c)
  show ?thesis
  proof (cases "map_of (connections g) c")
    case None
    with Close show ?thesis by auto
  next
    case (Some x)
    with Close tags_handleDisconnect [of x "close c g"] tags_close [of c g]
    show ?thesis by (auto simp: onClose_def)
  qed
next
  case (Error c)
  show ?thesis
  proof (cases "map_of (connections g) c")
    case None
    with Error show ?thesis by auto
  next
    case (Some x)
    with Error tags_handleDisconnect [of x "close c g"] tags_close [of c g]
    show ?thesis by (auto simp: onError_def)
  qed
next
  case (Drop c)
  have "tags (g\<lparr>connections := AList.map_entry c (\<lambda>x. x\<lparr>sendFails := True\<rparr>) (connections g)\<rparr>) \<subseteq> tags g"
    by (rule tags_map_entry_same) simp
  with Drop show ?thesis by auto
qed

lemma tags_run:
  "tags (run pf es g) \<subseteq> tags g \<union> {''add-debtor'', ''remove-debtor'', ''error''}"
proof (induction es arbitrary: g)
  case Nil
  show ?case by auto
next
  case (Cons e es)
  from Cons.IH [of "snd (step pf e g)"] tags_step [of pf e g] show ?case by auto
qed
text \<open>
  Claim C9. After any sequence of events from the empty server, every message delivered
  to any connection has the type \<open>add-debtor\<close>, \<open>remove-debtor\<close> or \<open>error\<close>, and none has
  the type \<open>update-debtor\<close>; \<open>onConnect\<close> adds messages of type \<open>add-debtor\<close> or \<open>error\<close>
  only, on all its paths, and \<open>handleDisconnect\<close> of type \<open>remove-debtor\<close> only.
\<close>

theorem C9_never_update_debtor:
  "tags (run pf es initial) \<subseteq> {''add-debtor'', ''remove-debtor'', ''error''} \<and>
   ''update-debtor'' \<notin> tags (run pf es initial) \<and>
   tags (snd (onConnect pf rnd c ctx g)) \<subseteq> tags g \<union> {''add-debtor'', ''error''} \<and>
   tags (snd (handleDisconnect x g)) \<subseteq> tags g \<union> {''remove-debtor''}"
proof -
  have "tags (initial :: 'a Globe) = {}" by (simp add: tags_def emitted_def initial_def)
  with tags_run [of pf es initial]
  have "tags (run pf es initial) \<subseteq> {''add-debtor'', ''remove-debtor'', ''error''}" by auto
  moreover from this have "''update-debtor'' \<notin> tags (run pf es initial)" by auto
  ultimately show ?thesis
    using tags_onConnect [of pf rnd c ctx g] tags_handleDisconnect [of x g] by blast
qed

end
